theory Spec2Isabelle
  imports
    Complex_Main
    "HOL-Library.AList"
    "HOL-Library.Char_ord"
    "HOL-Library.List_Lexorder"
    "HOL-Library.Product_Lexorder"
    "HOL-Library.Multiset"
begin

section \<open>Python values, exceptions and output\<close>

text \<open>
  The values that reach the code of \<^verbatim>\<open>conans/client/command.py\<close> as parsed argument
  values, as destinations of a namespace and as the code of a \<^verbatim>\<open>SystemExit\<close>:
  \<^verbatim>\<open>None\<close>, an integer, a string, or a list of such values. Python compares these
  structurally with \<^verbatim>\<open>==\<close>, as HOL's equality does here (booleans and floats, which
  Python identifies with integers under \<^verbatim>\<open>==\<close>, are not part of the model).
\<close>

datatype pyval = PyNone | PyInt int | PyStr string | PyList "pyval list"

text \<open>
  The exceptions the code raises, catches or lets through, one constructor for each class.
  \<open>OtherException\<close> is any other subclass of \<^verbatim>\<open>Exception\<close>, \<open>OtherBaseException\<close> any
  other class that derives from \<^verbatim>\<open>BaseException\<close> only (such as \<^verbatim>\<open>GeneratorExit\<close>).
\<close>

datatype exc =
    KeyboardInterrupt
  | SystemExit pyval
  | ConanInvalidConfiguration string
  | ConanInvalidSystemRequirements string
  | ConanException string
  | KeyError string
  | IndexError
  | TypeError
  | ValueError
  | AttributeError string
  | ArgumentError string
  | OtherException string
  | OtherBaseException string

text \<open>
  What a run leaves behind, in order: \<^verbatim>\<open>logger.error(exc)\<close>, \<^verbatim>\<open>self._out.error(exc)\<close>
  with an exception, \<^verbatim>\<open>self._out.error(msg)\<close> and \<^verbatim>\<open>self._out.info(msg)\<close> with a string,
  \<^verbatim>\<open>print(traceback.format_exc())\<close> while \<open>exc\<close> is handled, and
  \<^verbatim>\<open>self._out.error(exception_message_safe(exc))\<close>. The helper
  \<^verbatim>\<open>exception_message_safe\<close> of \<^verbatim>\<open>conans.util.files\<close> is not among the sources, so
  its call is recorded with the exception it is applied to.
\<close>

datatype event =
    Logger_error exc
  | Out_error_exc exc
  | Out_error string
  | Out_info string
  | Print_traceback exc
  | Out_error_safe exc

text \<open>
  Modelled from the spec: \<^verbatim>\<open>conans/cli/exit_codes.py\<close> is not among the sources. The spec
  binds Success to 0 and the other outcomes to distinct nonzero integers; the numerals
  below are one such choice.
\<close>

definition SUCCESS :: pyval where
  "SUCCESS = PyInt 0"

definition ERROR_GENERAL :: pyval where
  "ERROR_GENERAL = PyInt 1"

definition ERROR_INVALID_CONFIGURATION :: pyval where
  "ERROR_INVALID_CONFIGURATION = PyInt 6"

definition ERROR_INVALID_SYSTEM_REQUIREMENTS :: pyval where
  "ERROR_INVALID_SYSTEM_REQUIREMENTS = PyInt 7"

subsection \<open>String helpers\<close>

text \<open>\<^verbatim>\<open>s.startswith(p)\<close>.\<close>

definition startswith :: "string \<Rightarrow> string \<Rightarrow> bool" where
  "startswith s p = (take (length p) s = p)"

text \<open>\<^verbatim>\<open>"%d" % n\<close> for an integer: its decimal digits, with a minus sign when negative.\<close>

fun show_nat :: "nat \<Rightarrow> string" where
  "show_nat n =
     (if n < 10 then [''0123456789'' ! n]
      else show_nat (n div 10) @ [''0123456789'' ! (n mod 10)])"

declare show_nat.simps [simp del]

definition show_int :: "int \<Rightarrow> string" where
  "show_int i = (if i < 0 then CHR ''-'' # show_nat (nat (- i)) else show_nat (nat i))"

text \<open>
  \<^verbatim>\<open>"%d" % v\<close>: only a number can be formatted; \<^verbatim>\<open>None\<close>, a string or a list raise
  \<^verbatim>\<open>TypeError\<close>.
\<close>

fun format_d :: "pyval \<Rightarrow> exc + string" where
  "format_d (PyInt n) = Inr (show_int n)"
| "format_d v = Inl TypeError"

section \<open>The command object and its registry\<close>

text \<open>
  A bound method of the \<^verbatim>\<open>Command\<close> object: its docstring (\<^verbatim>\<open>__doc__\<close>, which may be
  \<^verbatim>\<open>None\<close>) and what calling it with the remaining arguments does: the output it
  produces and the exception it raises, if any (its return value is ignored by \<^verbatim>\<open>run\<close>).
\<close>

record bound_method =
  doc :: "string option"
  call :: "string list \<Rightarrow> event list \<times> exc option"

text \<open>
  The \<^verbatim>\<open>Command\<close> object, as far as the registry and the dispatcher read it: the list
  \<^verbatim>\<open>inspect.getmembers(self, predicate=inspect.ismethod)\<close> of its (name, method) pairs.
\<close>

record command =
  getmembers :: "(string \<times> bound_method) list"

text \<open>
  \<^verbatim>\<open>method.__doc__ and not method.__doc__.startswith('HIDDEN')\<close>: \<^verbatim>\<open>None\<close> and the
  empty string are both false.
\<close>

definition doc_shown :: "string option \<Rightarrow> bool" where
  "doc_shown d = (case d of None \<Rightarrow> False | Some s \<Rightarrow> s \<noteq> [] \<and> \<not> startswith s ''HIDDEN'')"

text \<open>
  The loop of \<^verbatim>\<open>_commands\<close>. The dictionary \<open>result\<close> is an association list in
  insertion order; \<^verbatim>\<open>result[method_name] = method\<close> is \<^const>\<open>AList.update\<close>, which
  replaces the value of a key already present and appends a new key at the end.
\<close>

type_synonym registry = "(string \<times> bound_method) list"

fun commands_loop :: "(string \<times> bound_method) list \<Rightarrow> registry \<Rightarrow> registry" where
  "commands_loop [] result = result"
| "commands_loop (m # ms) result =
     (let method_name = fst m in
      if \<not> startswith method_name ''_'' then
        let method_name = (if ''export_pkg'' = method_name then ''export-pkg'' else method_name);
            method = snd m
        in if doc_shown (doc method)
           then commands_loop ms (AList.update method_name method result)
           else commands_loop ms result
      else commands_loop ms result)"

definition commands :: "command \<Rightarrow> registry" where
  "commands self = commands_loop (getmembers self) []"

text \<open>
  A call of \<^verbatim>\<open>self._commands()\<close> in state-passing form: the method writes no attribute
  of the object, so the object comes back as it was.
\<close>

definition commands_call :: "command \<Rightarrow> registry \<times> command" where
  "commands_call self = (commands self, self)"

text \<open>The public name under which \<^verbatim>\<open>_commands\<close> files a method name.\<close>

definition public_name :: "string \<Rightarrow> string" where
  "public_name n = (if ''export_pkg'' = n then ''export-pkg'' else n)"

text \<open>The two tests of \<^verbatim>\<open>_commands\<close> on a candidate.\<close>

definition eligible :: "string \<times> bound_method \<Rightarrow> bool" where
  "eligible m = (\<not> startswith (fst m) ''_'' \<and> doc_shown (doc (snd m)))"

section \<open>The dispatcher\<close>

text \<open>
  The body of the \<^verbatim>\<open>try\<close> of \<^verbatim>\<open>run\<close>: \<^verbatim>\<open>args[0][0]\<close> raises \<^verbatim>\<open>IndexError\<close> on an
  empty argument list, \<^verbatim>\<open>commands[command]\<close> raises \<^verbatim>\<open>KeyError\<close> on a token that is
  not a key, and the method is called with the remaining arguments.
\<close>

fun run_try :: "command \<Rightarrow> string list \<Rightarrow> event list \<times> exc option" where
  "run_try self [] = ([], Some IndexError)"
| "run_try self (cmd # rest) =
     (case map_of (commands self) cmd of
        None \<Rightarrow> ([], Some (KeyError cmd))
      | Some method \<Rightarrow> call method rest)"

text \<open>
  The \<^verbatim>\<open>except\<close> clauses of \<^verbatim>\<open>run\<close>, in the source's order. The result is the value
  \<^verbatim>\<open>run\<close> returns (\<open>Inr\<close>) or the exception that leaves it (\<open>Inl\<close>), with the output
  so far. In the \<^verbatim>\<open>SystemExit\<close> clause \<^verbatim>\<open>exc.code != 0\<close> holds for every code but the
  integer 0, and \<^verbatim>\<open>"%d" % exc.code\<close> raises inside the clause for a code that is not a
  number. An exception that is not an \<^verbatim>\<open>Exception\<close> matches no clause.
\<close>

fun run_except :: "exc \<Rightarrow> event list \<Rightarrow> (exc + pyval) \<times> event list" where
  "run_except KeyboardInterrupt evs = (Inr SUCCESS, evs @ [Logger_error KeyboardInterrupt])"
| "run_except (SystemExit code) evs =
     (if code \<noteq> PyInt 0 then
        (case format_d code of
           Inl e \<Rightarrow> (Inl e, evs @ [Logger_error (SystemExit code)])
         | Inr s \<Rightarrow>
             (Inr code,
              evs @ [Logger_error (SystemExit code), Out_error (''Exiting with code: '' @ s)]))
      else (Inr code, evs))"
| "run_except (ConanInvalidConfiguration msg) evs =
     (Inr ERROR_INVALID_CONFIGURATION, evs @ [Out_error_exc (ConanInvalidConfiguration msg)])"
| "run_except (ConanInvalidSystemRequirements msg) evs =
     (Inr ERROR_INVALID_SYSTEM_REQUIREMENTS,
      evs @ [Out_error_exc (ConanInvalidSystemRequirements msg)])"
| "run_except (ConanException msg) evs =
     (Inr ERROR_GENERAL, evs @ [Out_error_exc (ConanException msg)])"
| "run_except (OtherBaseException msg) evs = (Inl (OtherBaseException msg), evs)"
| "run_except e evs = (Inr ERROR_GENERAL, evs @ [Print_traceback e, Out_error_safe e])"

definition run :: "command \<Rightarrow> string list \<Rightarrow> (exc + pyval) \<times> event list" where
  "run self argv =
     (case run_try self argv of
        (evs, None) \<Rightarrow> (Inr SUCCESS, evs)
      | (evs, Some e) \<Rightarrow> run_except e evs)"

section \<open>Similar commands\<close>

text \<open>
  \<^verbatim>\<open>difflib.get_close_matches(word, possibilities, n, cutoff)\<close> of the standard library,
  by its documentation: every possibility is scored against \<open>word\<close>, those scoring at
  least \<open>cutoff\<close> are kept, and the \<open>n\<close> best are returned, best first. The best are
  taken with \<^verbatim>\<open>heapq.nlargest\<close> on the pairs (score, possibility), that is the first
  \<open>n\<close> of the pairs sorted in descending order. The scoring function
  (\<^verbatim>\<open>SequenceMatcher.ratio\<close>) is a parameter: \<open>ratio x word\<close> is the score of the
  possibility \<open>x\<close>, a fraction between 0 and 1 taken here as a rational number.
\<close>

definition get_close_matches ::
  "(string \<Rightarrow> string \<Rightarrow> rat) \<Rightarrow> string \<Rightarrow> string list \<Rightarrow> nat \<Rightarrow> rat \<Rightarrow> string list" where
  "get_close_matches ratio word possibilities n cutoff =
     map snd (take n (rev (sort
       (filter (\<lambda>p. cutoff \<le> fst p) (map (\<lambda>x. (ratio x word, x)) possibilities)))))"

text \<open>The local \<open>matches\<close> of \<^verbatim>\<open>_print_similar\<close>.\<close>

definition similar_matches :: "(string \<Rightarrow> string \<Rightarrow> rat) \<Rightarrow> command \<Rightarrow> string \<Rightarrow> string list" where
  "similar_matches ratio self cmd =
     get_close_matches ratio cmd (map fst (commands self)) 5 (3 / 4)"

definition print_similar :: "(string \<Rightarrow> string \<Rightarrow> rat) \<Rightarrow> command \<Rightarrow> string \<Rightarrow> event list" where
  "print_similar ratio self cmd =
     (let matches = similar_matches ratio self cmd in
      if length matches = 0 then []
      else
        [if length matches > 1 then Out_info ''The most similar commands are''
         else Out_info ''The most similar command is'']
        @ map (\<lambda>match. Out_info (''    '' @ match)) matches
        @ [Out_info ''''])"

section \<open>Argument actions\<close>

text \<open>
  An \<^verbatim>\<open>argparse.Action\<close> as the two actions read it: its destination key and its
  declared default. The parser holds its actions and its parser-level defaults; the
  namespace maps destination keys to values (a key that is absent is an attribute that
  is not set).
\<close>

record action =
  dest :: string
  default_value :: pyval

record parser =
  actions :: "action list"
  parser_defaults :: "string \<rightharpoonup> pyval"

type_synonym namespace = "string \<rightharpoonup> pyval"

text \<open>
  \<^verbatim>\<open>parser.set_defaults(**{d: v})\<close> of the standard library: the parser-level default
  of \<open>d\<close> becomes \<open>v\<close>, and so does the default of every action of the parser whose
  destination is \<open>d\<close>.
\<close>

definition set_default_action :: "string \<Rightarrow> pyval \<Rightarrow> action \<Rightarrow> action" where
  "set_default_action d v a = (if dest a = d then a\<lparr>default_value := v\<rparr> else a)"

definition set_defaults :: "parser \<Rightarrow> string \<Rightarrow> pyval \<Rightarrow> parser" where
  "set_defaults p d v =
     p\<lparr>parser_defaults := (parser_defaults p)(d \<mapsto> v),
       actions := map (set_default_action d v) (actions p)\<rparr>"

text \<open>\<^verbatim>\<open>hasattr(v, 'extend')\<close>: among the values of the model, lists have it.\<close>

fun hasattr_extend :: "pyval \<Rightarrow> bool" where
  "hasattr_extend (PyList xs) = True"
| "hasattr_extend v = False"

text \<open>The elements of a list value (used only where \<^const>\<open>hasattr_extend\<close> holds).\<close>

fun elements :: "pyval \<Rightarrow> pyval list" where
  "elements (PyList xs) = xs"
| "elements v = []"

text \<open>\<^verbatim>\<open>isinstance(v, str)\<close> and the truth value of \<open>v\<close> in a condition.\<close>

fun is_str :: "pyval \<Rightarrow> bool" where
  "is_str (PyStr s) = True"
| "is_str v = False"

fun truthy :: "pyval \<Rightarrow> bool" where
  "truthy PyNone = False"
| "truthy (PyInt n) = (n \<noteq> 0)"
| "truthy (PyStr s) = (s \<noteq> [])"
| "truthy (PyList xs) = (xs \<noteq> [])"

text \<open>
  \<^verbatim>\<open>d.extend(values)\<close> on the list \<open>d\<close>: a list gives its elements, a string its
  characters, and a value that cannot be iterated raises \<^verbatim>\<open>TypeError\<close>.
\<close>

fun list_extend :: "pyval list \<Rightarrow> pyval \<Rightarrow> exc + pyval list" where
  "list_extend d (PyList ys) = Inr (d @ ys)"
| "list_extend d (PyStr s) = Inr (d @ map (\<lambda>c. PyStr [c]) s)"
| "list_extend d v = Inl TypeError"

text \<open>
  \<^verbatim>\<open>Extender.__call__(self, parser, namespace, values)\<close>. The action is one of the
  parser's actions, so \<^verbatim>\<open>parser.set_defaults\<close> reaches \<open>self\<close> too; the call returns
  the action, the parser and the namespace as it leaves them, or the exception raised.
  The list bound to \<open>dest\<close> is the namespace's own, so appending to it changes the
  namespace.
\<close>

definition Extender_call ::
  "action \<Rightarrow> parser \<Rightarrow> namespace \<Rightarrow> pyval \<Rightarrow> exc + (action \<times> parser \<times> namespace)" where
  "Extender_call self p ns values =
     (let d0 = (case ns (dest self) of None \<Rightarrow> PyNone | Some v \<Rightarrow> v);
          reset = (\<not> hasattr_extend d0 \<or> d0 = default_value self);
          d = (if reset then [] else elements d0);
          ns1 = (if reset then ns(dest self \<mapsto> PyList []) else ns);
          p1 = (if reset then set_defaults p (dest self) PyNone else p);
          self1 = (if reset then set_default_action (dest self) PyNone self else self)
      in if is_str values then Inr (self1, p1, ns1(dest self \<mapsto> PyList (d @ [values])))
         else if truthy values then
           (case list_extend d values of
              Inr d' \<Rightarrow> Inr (self1, p1, ns1(dest self \<mapsto> PyList d'))
            | Inl ValueError \<Rightarrow> Inr (self1, p1, ns1(dest self \<mapsto> PyList (d @ [values])))
            | Inl e \<Rightarrow> Inl e)
         else Inr (self1, p1, ns1))"

text \<open>\<^verbatim>\<open>'{o}'.format(o=option_string)\<close>: \<^verbatim>\<open>None\<close> is written \<^verbatim>\<open>None\<close>.\<close>

definition format_o :: "string option \<Rightarrow> string" where
  "format_o option_string = (case option_string of None \<Rightarrow> ''None'' | Some s \<Rightarrow> s)"

text \<open>
  \<^verbatim>\<open>OnceArgument.__call__(self, parser, namespace, values, option_string)\<close>.
  \<^verbatim>\<open>getattr(namespace, self.dest)\<close> has no default and raises \<^verbatim>\<open>AttributeError\<close> on an
  attribute that is not set.
\<close>

definition OnceArgument_call ::
  "string option \<Rightarrow> action \<Rightarrow> parser \<Rightarrow> namespace \<Rightarrow> pyval
     \<Rightarrow> exc + (action \<times> parser \<times> namespace)" where
  "OnceArgument_call option_string self p ns values =
     (case ns (dest self) of
        None \<Rightarrow> Inl (AttributeError (dest self))
      | Some cur \<Rightarrow>
          if cur \<noteq> PyNone \<and> default_value self = PyNone
          then Inl (ArgumentError (format_o option_string @ '' can only be specified once''))
          else Inr (self, p, ns(dest self \<mapsto> values)))"

text \<open>
  The occurrences of one flag on a command line: the parser calls the flag's action once
  for each occurrence, in the order of the command line, and the first exception ends
  the parse.
\<close>

fun occurrences ::
  "(action \<Rightarrow> parser \<Rightarrow> namespace \<Rightarrow> pyval \<Rightarrow> exc + (action \<times> parser \<times> namespace))
     \<Rightarrow> action \<Rightarrow> parser \<Rightarrow> namespace \<Rightarrow> pyval list
     \<Rightarrow> exc + (action \<times> parser \<times> namespace)" where
  "occurrences act self p ns [] = Inr (self, p, ns)"
| "occurrences act self p ns (v # vs) =
     (case act self p ns v of
        Inl e \<Rightarrow> Inl e
      | Inr (self', p', ns') \<Rightarrow> occurrences act self' p' ns' vs)"

text \<open>
  What one occurrence adds to an accumulated destination: a string is one element, a
  list gives its elements, anything else nothing.
\<close>

fun contribution :: "pyval \<Rightarrow> pyval list" where
  "contribution (PyStr s) = [PyStr s]"
| "contribution (PyList ys) = ys"
| "contribution v = []"

text \<open>The occurrence values \<^const>\<open>Extender_call\<close> accepts without a type mismatch.\<close>

fun accepted :: "pyval \<Rightarrow> bool" where
  "accepted (PyInt n) = (n = 0)"
| "accepted v = True"

text \<open>An occurrence that carries exactly one value: a string or a list of one element.\<close>

fun single :: "pyval \<Rightarrow> bool" where
  "single (PyStr s) = True"
| "single (PyList ys) = (length ys = 1)"
| "single v = False"

section \<open>The JSON output of \<^verbatim>\<open>inspect\<close>\<close>























section \<open>The specification's words\<close>

text \<open>
  The registry as the specification describes it: the eligible candidates, each under its
  public name, in the order of the candidates.
\<close>

definition entries :: "(string \<times> bound_method) list \<Rightarrow> registry" where
  "entries ms = map (\<lambda>m. (public_name (fst m), snd m)) (filter eligible ms)"









section \<open>Properties of the registry\<close>

lemma commands_loop_Cons:
  "commands_loop (m # ms) acc =
     commands_loop ms (if eligible m then AList.update (public_name (fst m)) (snd m) acc else acc)"
  by (simp add: eligible_def public_name_def Let_def)

lemma map_of_commands_loop:
  "map_of (commands_loop ms acc) = map_of acc ++ map_of (rev (entries ms))"
proof (induction ms arbitrary: acc)
  case Nil
  show ?case by (simp add: entries_def)
next
  case (Cons m ms)
  show ?case
  proof (cases "eligible m")
    case True
    have "map_of (commands_loop (m # ms) acc)
          = map_of (AList.update (public_name (fst m)) (snd m) acc) ++ map_of (rev (entries ms))"
      using True by (simp only: commands_loop_Cons Cons.IH if_True)
    also have "\<dots> = map_of acc ++ map_of (rev (entries (m # ms)))"
      using True
      by (simp add: entries_def update_conv' fun_eq_iff map_add_def split: option.splits)
    finally show ?thesis .
  next
    case False
    then show ?thesis
      by (simp only: commands_loop_Cons Cons.IH if_False) (simp add: entries_def)
  qed
qed

lemma map_of_commands:
  "map_of (commands self) = map_of (rev (entries (getmembers self)))"
  by (simp add: commands_def map_of_commands_loop)

lemma keys_commands:
  "fst ` set (commands self) = public_name ` fst ` {m \<in> set (getmembers self). eligible m}"
proof -
  have "fst ` set (commands self) = dom (map_of (commands self))"
    by (simp add: dom_map_of_conv_image_fst)
  also have "\<dots> = fst ` set (entries (getmembers self))"
    by (simp add: map_of_commands dom_map_of_conv_image_fst)
  also have "\<dots> = public_name ` fst ` {m \<in> set (getmembers self). eligible m}"
    by (force simp: entries_def)
  finally show ?thesis .
qed

lemma distinct_entries:
  "distinct (map (public_name \<circ> fst) ms) \<Longrightarrow> distinct (map fst (entries ms))"
  by (induction ms) (auto simp: entries_def)

lemma distinct_commands_loop:
  "distinct (map fst acc) \<Longrightarrow> distinct (map fst (commands_loop ms acc))"
proof (induction ms arbitrary: acc)
  case Nil
  then show ?case by simp
next
  case (Cons m ms)
  then show ?case
    by (simp only: commands_loop_Cons) (simp add: distinct_update)
qed

lemma distinct_commands: "distinct (map fst (commands self))"
  by (simp add: commands_def distinct_commands_loop)

text \<open>
  Claim C6. When no two candidates share a public name, the registry binds the public name
  of a candidate to that candidate exactly when its name does not begin with
  \<^verbatim>\<open>_\<close> and its docstring is not \<^verbatim>\<open>None\<close>, not empty and does not begin with
  \<^verbatim>\<open>HIDDEN\<close>. The public name of \<^verbatim>\<open>export_pkg\<close> is \<^verbatim>\<open>export-pkg\<close>, every other name is
  its own public name, and the keys of the registry are the public names of the eligible
  candidates.
\<close>

theorem commands_contains:
  assumes "distinct (map (public_name \<circ> fst) (getmembers self))"
    and "(n, m) \<in> set (getmembers self)"
  shows "(map_of (commands self) (public_name n) = Some m)
           = (\<not> startswith n ''_''
              \<and> (\<exists>d. doc m = Some d \<and> d \<noteq> [] \<and> \<not> startswith d ''HIDDEN''))
         \<and> public_name ''export_pkg'' = ''export-pkg''
         \<and> (n = ''export_pkg'' \<or> public_name n = n)
         \<and> fst ` set (commands self)
             = public_name ` fst ` {c \<in> set (getmembers self). eligible c}"
proof -
  let ?ms = "getmembers self"
  have d: "distinct (map fst (rev (entries ?ms)))"
    using assms(1) by (simp add: distinct_entries rev_map [symmetric])
  have "(map_of (commands self) (public_name n) = Some m)
        = ((public_name n, m) \<in> set (entries ?ms))"
    using d by (simp add: map_of_commands)
  also have "\<dots> = eligible (n, m)"
  proof
    assume "(public_name n, m) \<in> set (entries ?ms)"
    then obtain c where c: "c \<in> set ?ms" "eligible c"
        "public_name (fst c) = public_name n" "snd c = m"
      by (auto simp: entries_def)
    from assms(1) c(1) assms(2) c(3) have "c = (n, m)"
      by (auto simp: distinct_map dest!: inj_onD [where x = c and y = "(n, m)"])
    with c(2) show "eligible (n, m)" by simp
  next
    assume "eligible (n, m)"
    with assms(2) show "(public_name n, m) \<in> set (entries ?ms)"
      by (force simp: entries_def)
  qed
  also have "\<dots> = (\<not> startswith n ''_''
                    \<and> (\<exists>d. doc m = Some d \<and> d \<noteq> [] \<and> \<not> startswith d ''HIDDEN''))"
    by (auto simp: eligible_def doc_shown_def split: option.splits)
  finally show ?thesis
    by (simp add: keys_commands) (simp add: public_name_def)
qed

text \<open>
  The candidates \<^verbatim>\<open>a\<close> (documented), \<^verbatim>\<open>b\<close> (hidden) and \<^verbatim>\<open>c\<close> (documented): the
  registry binds \<^verbatim>\<open>a\<close> and does not bind \<^verbatim>\<open>b\<close>.
\<close>

theorem commands_contains_witness:
  "map_of (commands \<lparr>getmembers =
       [(''a'', \<lparr>doc = Some ''docs'', call = (\<lambda>args. ([], None))\<rparr>),
        (''b'', \<lparr>doc = Some ''HIDDEN: docs'', call = (\<lambda>args. ([], None))\<rparr>),
        (''c'', \<lparr>doc = Some ''more docs'', call = (\<lambda>args. ([], None))\<rparr>)]\<rparr>) ''a''
     = Some \<lparr>doc = Some ''docs'', call = (\<lambda>args. ([], None))\<rparr>
   \<and> map_of (commands \<lparr>getmembers =
       [(''a'', \<lparr>doc = Some ''docs'', call = (\<lambda>args. ([], None))\<rparr>),
        (''b'', \<lparr>doc = Some ''HIDDEN: docs'', call = (\<lambda>args. ([], None))\<rparr>),
        (''c'', \<lparr>doc = Some ''more docs'', call = (\<lambda>args. ([], None))\<rparr>)]\<rparr>) ''b''
     \<noteq> Some \<lparr>doc = Some ''HIDDEN: docs'', call = (\<lambda>args. ([], None))\<rparr>"
  (is "map_of (commands ?S) _ = Some ?a \<and> map_of (commands ?S) _ \<noteq> Some ?b")
proof -
  have d: "distinct (map (public_name \<circ> fst) (getmembers ?S))"
    by (simp add: public_name_def)
  have a: "(''a'', ?a) \<in> set (getmembers ?S)" and b: "(''b'', ?b) \<in> set (getmembers ?S)"
    by simp_all
  show ?thesis
    using commands_contains [OF d a] commands_contains [OF d b]
    by (simp add: public_name_def startswith_def)
qed

text \<open>
  Claim C9. Two calls of \<^verbatim>\<open>_commands\<close> in a row on the same object return the same
  registry: the same names in the same order, bound to the same methods, each name once;
  and the object is left as it was.
\<close>

theorem commands_twice:
  "(case commands_call self of
      (r1, self1) \<Rightarrow>
        (case commands_call self1 of
           (r2, self2) \<Rightarrow>
             set (map fst r1) = set (map fst r2) \<and> map_of r1 = map_of r2 \<and> r1 = r2
             \<and> distinct (map fst r1) \<and> self2 = self))"
  by (simp add: commands_call_def distinct_commands)

theorem commands_twice_witness:
  "(case commands_call \<lparr>getmembers =
       [(''a'', \<lparr>doc = Some ''docs'', call = (\<lambda>args. ([], None))\<rparr>),
        (''b'', \<lparr>doc = Some ''HIDDEN: docs'', call = (\<lambda>args. ([], None))\<rparr>)]\<rparr> of
      (r1, self1) \<Rightarrow>
        (case commands_call self1 of
           (r2, self2) \<Rightarrow>
             map fst r1 = [''a''] \<and> map fst r2 = [''a''] \<and> map_of r1 = map_of r2))"
  (is "case commands_call ?S of (r1, self1) \<Rightarrow> _")
  using commands_twice [of ?S]
  by (simp add: commands_call_def commands_def doc_shown_def startswith_def)

section \<open>Properties of the dispatcher\<close>

lemma run_registered:
  "map_of (commands self) cmd = Some m \<Longrightarrow> call m rest = (evs, r) \<Longrightarrow>
   run self (cmd # rest) = (case r of None \<Rightarrow> (Inr SUCCESS, evs) | Some e \<Rightarrow> run_except e evs)"
  by (simp add: run_def)

lemma commands_single:
  "doc_shown d \<Longrightarrow> \<not> startswith n ''_'' \<Longrightarrow> n \<noteq> ''export_pkg'' \<Longrightarrow>
   commands \<lparr>getmembers = [(n, \<lparr>doc = d, call = f\<rparr>)]\<rparr> = [(n, \<lparr>doc = d, call = f\<rparr>)]"
  by (auto simp: commands_def)

text \<open>
  Claim C2. When the token is registered and its handler raises \<^verbatim>\<open>KeyboardInterrupt\<close>,
  \<^verbatim>\<open>run\<close> logs the exception and returns \<^verbatim>\<open>SUCCESS\<close>, which is 0.
\<close>

theorem run_keyboard_interrupt:
  assumes "map_of (commands self) cmd = Some m"
    and "call m rest = (evs, Some KeyboardInterrupt)"
  shows "run self (cmd # rest) = (Inr SUCCESS, evs @ [Logger_error KeyboardInterrupt])
         \<and> SUCCESS = PyInt 0"
  using assms by (simp add: run_registered SUCCESS_def)

theorem run_keyboard_interrupt_witness:
  "run \<lparr>getmembers =
          [(''build'', \<lparr>doc = Some ''Builds'',
                        call = (\<lambda>args. ([Out_info ''building''], Some KeyboardInterrupt))\<rparr>)]\<rparr>
       [''build'', ''.'']
   = (Inr (PyInt 0), [Out_info ''building'', Logger_error KeyboardInterrupt])"
  (is "run \<lparr>getmembers = [(_, ?m)]\<rparr> _ = _")
proof -
  have c: "map_of (commands \<lparr>getmembers = [(''build'', ?m)]\<rparr>) ''build'' = Some ?m"
    by (simp add: commands_single doc_shown_def startswith_def)
  have h: "call ?m [''.''] = ([Out_info ''building''], Some KeyboardInterrupt)"
    by simp
  show ?thesis
    using run_keyboard_interrupt [OF c h] by simp
qed

text \<open>
  Claim C1, as the code has it. When the token is registered and its handler raises
  \<^verbatim>\<open>SystemExit\<close> with a nonzero integer code, \<^verbatim>\<open>run\<close> logs the exception, writes
  \<^verbatim>\<open>Exiting with code: \<close> followed by the code as an error, and returns that code
  itself.
\<close>

theorem run_system_exit_nonzero:
  assumes "map_of (commands self) cmd = Some m"
    and "call m rest = (evs, Some (SystemExit (PyInt n)))"
    and "n \<noteq> 0"
  shows "run self (cmd # rest)
         = (Inr (PyInt n),
            evs @ [Logger_error (SystemExit (PyInt n)),
                   Out_error (''Exiting with code: '' @ show_int n)])"
  using assms by (simp add: run_registered)

theorem run_system_exit_nonzero_witness:
  "run \<lparr>getmembers =
          [(''install'', \<lparr>doc = Some ''Installs'',
                          call = (\<lambda>args. ([], Some (SystemExit (PyInt 2))))\<rparr>)]\<rparr>
       [''install'', ''--bad'']
   = (Inr (PyInt 2),
      [Logger_error (SystemExit (PyInt 2)), Out_error ''Exiting with code: 2''])"
  (is "run \<lparr>getmembers = [(_, ?m)]\<rparr> _ = _")
proof -
  have c: "map_of (commands \<lparr>getmembers = [(''install'', ?m)]\<rparr>) ''install'' = Some ?m"
    by (simp add: commands_single doc_shown_def startswith_def)
  have h: "call ?m [''--bad''] = ([], Some (SystemExit (PyInt 2)))"
    by simp
  have n: "(2::int) \<noteq> 0"
    by simp
  show ?thesis
    using run_system_exit_nonzero [OF c h n] by (simp add: show_int_def show_nat.simps)
qed

text \<open>
  The claim as stated fails: a handler that exits with code 2 makes \<^verbatim>\<open>run\<close> return 2,
  one that exits with code 3 makes it return 3, so the two results are not both
  \<^verbatim>\<open>ERROR_GENERAL\<close>, whatever its value.
\<close>

theorem run_system_exit_counterexample:
  "fst (run \<lparr>getmembers =
          [(''three'', \<lparr>doc = Some ''Exits with 3'',
                        call = (\<lambda>args. ([], Some (SystemExit (PyInt 3))))\<rparr>),
           (''two'', \<lparr>doc = Some ''Exits with 2'',
                      call = (\<lambda>args. ([], Some (SystemExit (PyInt 2))))\<rparr>)]\<rparr> [''two''])
     = Inr (PyInt 2)
   \<and> fst (run \<lparr>getmembers =
          [(''three'', \<lparr>doc = Some ''Exits with 3'',
                        call = (\<lambda>args. ([], Some (SystemExit (PyInt 3))))\<rparr>),
           (''two'', \<lparr>doc = Some ''Exits with 2'',
                      call = (\<lambda>args. ([], Some (SystemExit (PyInt 2))))\<rparr>)]\<rparr> [''three''])
     = Inr (PyInt 3)
   \<and> \<not> (fst (run \<lparr>getmembers =
          [(''three'', \<lparr>doc = Some ''Exits with 3'',
                        call = (\<lambda>args. ([], Some (SystemExit (PyInt 3))))\<rparr>),
           (''two'', \<lparr>doc = Some ''Exits with 2'',
                      call = (\<lambda>args. ([], Some (SystemExit (PyInt 2))))\<rparr>)]\<rparr> [''two''])
          = Inr ERROR_GENERAL
        \<and> fst (run \<lparr>getmembers =
          [(''three'', \<lparr>doc = Some ''Exits with 3'',
                        call = (\<lambda>args. ([], Some (SystemExit (PyInt 3))))\<rparr>),
           (''two'', \<lparr>doc = Some ''Exits with 2'',
                      call = (\<lambda>args. ([], Some (SystemExit (PyInt 2))))\<rparr>)]\<rparr> [''three''])
          = Inr ERROR_GENERAL)"
  by (simp add: run_def commands_def doc_shown_def startswith_def ERROR_GENERAL_def)

text \<open>
  Claim C3, as the code has it. For a token that is not a key of the registry,
  \<^verbatim>\<open>commands[command]\<close> raises \<^verbatim>\<open>KeyError\<close>, which the last clause of \<^verbatim>\<open>run\<close>
  handles: the traceback is printed, the message of the exception is written as an error,
  and \<^verbatim>\<open>ERROR_GENERAL\<close> is returned. \<^verbatim>\<open>_print_similar\<close> is not called: nothing it
  would write, for any scoring function, is in the output of \<^verbatim>\<open>run\<close>.
\<close>

theorem run_unknown_command:
  assumes "cmd \<notin> fst ` set (commands self)"
  shows "run self (cmd # rest)
         = (Inr ERROR_GENERAL, [Print_traceback (KeyError cmd), Out_error_safe (KeyError cmd)])
         \<and> set (print_similar ratio self cmd) \<inter> set (snd (run self (cmd # rest))) = {}"
proof -
  from assms have "map_of (commands self) cmd = None"
    by (simp add: map_of_eq_None_iff)
  then have r: "run self (cmd # rest)
         = (Inr ERROR_GENERAL, [Print_traceback (KeyError cmd), Out_error_safe (KeyError cmd)])"
    by (simp add: run_def)
  have "\<forall>e \<in> set (print_similar ratio self cmd). \<exists>s. e = Out_info s"
    by (auto simp: print_similar_def Let_def)
  with r show ?thesis by auto
qed

theorem run_unknown_command_witness:
  "run \<lparr>getmembers = [(''build'', \<lparr>doc = Some ''Builds'', call = (\<lambda>args. ([], None))\<rparr>)]\<rparr>
       [''biuld'', ''.'']
   = (Inr ERROR_GENERAL,
      [Print_traceback (KeyError ''biuld''), Out_error_safe (KeyError ''biuld'')])"
  (is "run ?S _ = _")
proof -
  have h: "''biuld'' \<notin> fst ` set (commands ?S)"
    by (simp add: commands_single doc_shown_def startswith_def)
  show ?thesis
    using run_unknown_command [OF h, of "[''.'']" "\<lambda>x w. 0"] by simp
qed

text \<open>
  The claim as stated fails: with \<^verbatim>\<open>build\<close> registered and scored 0.8 against the
  token \<^verbatim>\<open>biuld\<close>, \<^verbatim>\<open>_print_similar\<close> would write a hint, and the output of
  \<^verbatim>\<open>run\<close> does not hold it.
\<close>

theorem run_unknown_command_counterexample:
  "print_similar (\<lambda>x w. if x = ''build'' \<and> w = ''biuld'' then 4 / 5 else 0)
       \<lparr>getmembers = [(''build'', \<lparr>doc = Some ''Builds'', call = (\<lambda>args. ([], None))\<rparr>)]\<rparr>
       ''biuld''
     = [Out_info ''The most similar command is'', Out_info ''    build'', Out_info '''']
   \<and> \<not> set (print_similar (\<lambda>x w. if x = ''build'' \<and> w = ''biuld'' then 4 / 5 else 0)
       \<lparr>getmembers = [(''build'', \<lparr>doc = Some ''Builds'', call = (\<lambda>args. ([], None))\<rparr>)]\<rparr>
       ''biuld'')
      \<subseteq> set (snd (run
       \<lparr>getmembers = [(''build'', \<lparr>doc = Some ''Builds'', call = (\<lambda>args. ([], None))\<rparr>)]\<rparr>
       [''biuld'']))"
  by (simp add: print_similar_def similar_matches_def get_close_matches_def run_def
        commands_single doc_shown_def startswith_def)

section \<open>Properties of the argument actions\<close>

lemma Extender_call_reset:
  assumes "ns (dest self) = None \<or> ns (dest self) = Some (default_value self)"
    and "accepted v"
  shows "Extender_call self p ns v
         = Inr (self\<lparr>default_value := PyNone\<rparr>, set_defaults p (dest self) PyNone,
                ns(dest self \<mapsto> PyList (contribution v)))"
  using assms
  by (cases v) (auto simp: Extender_call_def Let_def set_default_action_def)

lemma Extender_call_keep:
  assumes "ns (dest self) = Some (PyList xs)"
    and "default_value self = PyNone"
    and "accepted v"
  shows "Extender_call self p ns v = Inr (self, p, ns(dest self \<mapsto> PyList (xs @ contribution v)))"
proof -
  have "ns(dest self \<mapsto> PyList xs) = ns"
    using assms(1) by (simp add: fun_upd_idem)
  then show ?thesis
    using assms by (cases v) (simp_all add: Extender_call_def Let_def)
qed

lemma occurrences_Extender_keep:
  assumes "ns (dest self) = Some (PyList xs)"
    and "default_value self = PyNone"
    and "\<forall>v \<in> set vs. accepted v"
  shows "occurrences Extender_call self p ns vs
         = Inr (self, p, ns(dest self \<mapsto> PyList (xs @ concat (map contribution vs))))"
  using assms
proof (induction vs arbitrary: ns xs)
  case Nil
  then show ?case by (simp add: fun_upd_idem)
next
  case (Cons v vs)
  have step: "Extender_call self p ns v
              = Inr (self, p, ns(dest self \<mapsto> PyList (xs @ contribution v)))"
    using Cons.prems by (simp add: Extender_call_keep)
  have "occurrences Extender_call self p (ns(dest self \<mapsto> PyList (xs @ contribution v))) vs
        = Inr (self, p, (ns(dest self \<mapsto> PyList (xs @ contribution v)))
                 (dest self \<mapsto> PyList ((xs @ contribution v) @ concat (map contribution vs))))"
    using Cons.prems by (intro Cons.IH) simp_all
  then show ?case
    by (simp only: occurrences.simps step sum.case prod.case append_assoc fun_upd_upd
          list.map concat.simps)
qed

text \<open>
  A value that is neither a string nor iterable, such as a nonzero integer, makes
  \<^verbatim>\<open>dest.extend(values)\<close> raise \<^verbatim>\<open>TypeError\<close>, which the \<^verbatim>\<open>except ValueError\<close>
  clause does not catch: the exception leaves the call.
\<close>

lemma Extender_call_not_iterable:
  "n \<noteq> 0 \<Longrightarrow> Extender_call self p ns (PyInt n) = Inl TypeError"
  by (simp add: Extender_call_def Let_def)

lemma length_single:
  "\<forall>v \<in> set vs. single v \<Longrightarrow> length (concat (map contribution vs)) = length vs"
proof (induction vs)
  case Nil
  show ?case by simp
next
  case (Cons v vs)
  then show ?case by (cases v) simp_all
qed

text \<open>
  Claim C4, as the code has it. The destination starts unset or at the declared default,
  as the parser leaves it, and the flag occurs at least once, each time with a string,
  a list, \<^verbatim>\<open>None\<close> or 0. Then the parse succeeds and the destination is the list of
  the occurrences' contributions in command-line order: a string is one element, a list
  gives all its elements, and an empty list, \<^verbatim>\<open>None\<close> and 0 give none. The list is as
  long as the number of occurrences when every occurrence carries a string or a list of
  one element. The action's default and the parser's default for the destination are
  \<^verbatim>\<open>None\<close> afterwards.
\<close>

theorem Extender_accumulates:
  assumes "ns (dest self) = None \<or> ns (dest self) = Some (default_value self)"
    and "vs \<noteq> []"
    and "\<forall>v \<in> set vs. accepted v"
  shows "occurrences Extender_call self p ns vs
         = Inr (self\<lparr>default_value := PyNone\<rparr>, set_defaults p (dest self) PyNone,
                ns(dest self \<mapsto> PyList (concat (map contribution vs))))
         \<and> ((\<forall>v \<in> set vs. single v) \<longrightarrow> length (concat (map contribution vs)) = length vs)"
proof -
  from assms(2) obtain v ws where vs: "vs = v # ws" by (cases vs) auto
  let ?self = "self\<lparr>default_value := PyNone\<rparr>"
  let ?ns = "ns(dest self \<mapsto> PyList (contribution v))"
  have first: "Extender_call self p ns v = Inr (?self, set_defaults p (dest self) PyNone, ?ns)"
    using assms(1,3) vs by (simp add: Extender_call_reset)
  have "occurrences Extender_call ?self (set_defaults p (dest self) PyNone) ?ns ws
        = Inr (?self, set_defaults p (dest self) PyNone,
               ?ns(dest ?self \<mapsto> PyList (contribution v @ concat (map contribution ws))))"
    using assms(3) vs by (intro occurrences_Extender_keep) simp_all
  moreover have "dest ?self = dest self"
    by simp
  ultimately have rest: "occurrences Extender_call ?self (set_defaults p (dest self) PyNone) ?ns ws
        = Inr (?self, set_defaults p (dest self) PyNone,
               ns(dest self \<mapsto> PyList (concat (map contribution vs))))"
    by (simp only: vs list.map concat.simps fun_upd_upd)
  have "occurrences Extender_call self p ns vs
         = Inr (?self, set_defaults p (dest self) PyNone,
                ns(dest self \<mapsto> PyList (concat (map contribution vs))))"
    by (simp only: vs occurrences.simps first sum.case prod.case rest [unfolded vs])
  then show ?thesis
    by (simp add: length_single)
qed

text \<open>
  Three occurrences of \<^verbatim>\<open>-o\<close> (declared with \<^verbatim>\<open>nargs=1\<close>, so that each value is a
  list of one string) give the three values in order.
\<close>

theorem Extender_accumulates_witness:
  "occurrences Extender_call \<lparr>dest = ''options_host'', default_value = PyNone\<rparr>
       \<lparr>actions = [\<lparr>dest = ''options_host'', default_value = PyNone\<rparr>],
        parser_defaults = Map.empty\<rparr>
       [''options_host'' \<mapsto> PyNone]
       [PyList [PyStr ''a''], PyList [PyStr ''b''], PyList [PyStr ''c'']]
   = Inr (\<lparr>dest = ''options_host'', default_value = PyNone\<rparr>,
          \<lparr>actions = [\<lparr>dest = ''options_host'', default_value = PyNone\<rparr>],
           parser_defaults = [''options_host'' \<mapsto> PyNone]\<rparr>,
          [''options_host'' \<mapsto> PyList [PyStr ''a'', PyStr ''b'', PyStr ''c'']])
   \<and> length [PyStr ''a'', PyStr ''b'', PyStr ''c'']
     = length [PyList [PyStr ''a''], PyList [PyStr ''b''], PyList [PyStr ''c'']]"
  (is "occurrences Extender_call ?a ?p ?ns ?vs = _ \<and> _")
proof -
  have h1: "?ns (dest ?a) = None \<or> ?ns (dest ?a) = Some (default_value ?a)"
    by simp
  have h2: "?vs \<noteq> []"
    by simp
  have h3: "\<forall>v \<in> set ?vs. accepted v"
    by simp
  show ?thesis
    using Extender_accumulates [where self = ?a and p = ?p and ns = ?ns and vs = ?vs] h1 h2 h3
    by (simp add: set_defaults_def set_default_action_def)
qed

text \<open>
  The claim as stated fails: \<^verbatim>\<open>--build --build missing\<close> (the flag is declared with
  \<^verbatim>\<open>nargs="?"\<close>, so that an occurrence without a value carries \<^verbatim>\<open>None\<close>) has two
  occurrences and leaves a destination of one element.
\<close>

theorem Extender_accumulates_counterexample:
  "(case occurrences Extender_call \<lparr>dest = ''build'', default_value = PyNone\<rparr>
           \<lparr>actions = [\<lparr>dest = ''build'', default_value = PyNone\<rparr>],
            parser_defaults = Map.empty\<rparr>
           [''build'' \<mapsto> PyNone] [PyNone, PyStr ''missing''] of
      Inl e \<Rightarrow> None
    | Inr (a, q, ns') \<Rightarrow> ns' ''build'')
   = Some (PyList [PyStr ''missing''])
   \<and> length [PyStr ''missing''] \<noteq> length [PyNone, PyStr ''missing'']"
  by (simp add: Extender_call_def set_default_action_def Let_def)

text \<open>
  Claim C5, as the code has it. For a flag whose declared default is \<^verbatim>\<open>None\<close>, an
  occurrence that finds a value other than \<^verbatim>\<open>None\<close> in the destination raises
  \<^verbatim>\<open>ArgumentError\<close> with the message that the option can only be specified once. For
  every flag, a single occurrence on a destination that stands at the declared default
  succeeds and leaves the supplied value there.
\<close>

theorem OnceArgument_once:
  "(default_value self = PyNone \<and> ns (dest self) = Some cur \<and> cur \<noteq> PyNone \<longrightarrow>
      OnceArgument_call opt self p ns v
      = Inl (ArgumentError (format_o opt @ '' can only be specified once'')))
   \<and> (ns (dest self) = Some (default_value self) \<longrightarrow>
      occurrences (OnceArgument_call opt) self p ns [v] = Inr (self, p, ns(dest self \<mapsto> v)))"
  by (simp add: OnceArgument_call_def)

theorem OnceArgument_once_witness:
  "OnceArgument_call (Some ''-r'') \<lparr>dest = ''remote'', default_value = PyNone\<rparr>
       \<lparr>actions = [\<lparr>dest = ''remote'', default_value = PyNone\<rparr>], parser_defaults = Map.empty\<rparr>
       [''remote'' \<mapsto> PyStr ''origin''] (PyStr ''other'')
   = Inl (ArgumentError ''-r can only be specified once'')
   \<and> occurrences (OnceArgument_call (Some ''-r'')) \<lparr>dest = ''remote'', default_value = PyNone\<rparr>
       \<lparr>actions = [\<lparr>dest = ''remote'', default_value = PyNone\<rparr>], parser_defaults = Map.empty\<rparr>
       [''remote'' \<mapsto> PyNone] [PyStr ''origin'']
   = Inr (\<lparr>dest = ''remote'', default_value = PyNone\<rparr>,
          \<lparr>actions = [\<lparr>dest = ''remote'', default_value = PyNone\<rparr>],
           parser_defaults = Map.empty\<rparr>,
          [''remote'' \<mapsto> PyStr ''origin''])"
  (is "OnceArgument_call ?o ?a ?p ?ns1 ?v1 = _ \<and> occurrences _ _ _ ?ns2 [?v2] = _")
  using OnceArgument_once [of ?a ?ns1 "PyStr ''origin''" ?o ?p ?v1]
    OnceArgument_once [of ?a ?ns2 PyNone ?o ?p ?v2]
  by (simp add: format_o_def)

text \<open>
  The claim as stated fails: with the declared default \<^verbatim>\<open>conancenter\<close>, a second
  occurrence that finds \<^verbatim>\<open>first\<close> in the destination (neither the default nor
  \<^verbatim>\<open>None\<close>) does not fail; it stores its value.
\<close>

theorem OnceArgument_once_counterexample:
  "OnceArgument_call (Some ''-r'') \<lparr>dest = ''remote'', default_value = PyStr ''conancenter''\<rparr>
       \<lparr>actions = [\<lparr>dest = ''remote'', default_value = PyStr ''conancenter''\<rparr>],
        parser_defaults = Map.empty\<rparr>
       [''remote'' \<mapsto> PyStr ''first''] (PyStr ''second'')
   = Inr (\<lparr>dest = ''remote'', default_value = PyStr ''conancenter''\<rparr>,
          \<lparr>actions = [\<lparr>dest = ''remote'', default_value = PyStr ''conancenter''\<rparr>],
           parser_defaults = Map.empty\<rparr>,
          [''remote'' \<mapsto> PyStr ''second''])"
  by (simp add: OnceArgument_call_def)

lemma occurrences_OnceArgument_default:
  assumes "default_value self \<noteq> PyNone" and "ns (dest self) \<noteq> None" and "vs \<noteq> []"
  shows "occurrences (OnceArgument_call opt) self p ns vs = Inr (self, p, ns(dest self \<mapsto> last vs))"
  using assms
proof (induction vs arbitrary: ns)
  case Nil
  then show ?case by simp
next
  case (Cons v vs)
  from Cons.prems obtain cur where cur: "ns (dest self) = Some cur" by auto
  have step: "OnceArgument_call opt self p ns v = Inr (self, p, ns(dest self \<mapsto> v))"
    using Cons.prems(1) cur by (simp add: OnceArgument_call_def)
  show ?case
  proof (cases "vs = []")
    case True
    then show ?thesis
      by (simp only: occurrences.simps step sum.case prod.case last.simps if_True refl)
  next
    case False
    have "occurrences (OnceArgument_call opt) self p (ns(dest self \<mapsto> v)) vs
          = Inr (self, p, (ns(dest self \<mapsto> v))(dest self \<mapsto> last vs))"
      using Cons.prems(1) False by (intro Cons.IH) simp_all
    then show ?thesis using False
      by (simp only: occurrences.simps step sum.case prod.case last.simps if_False fun_upd_upd)
  qed
qed

text \<open>
  Claim C10. For a flag whose declared default is not \<^verbatim>\<open>None\<close> and whose destination
  is set, any number of occurrences parse without an exception and leave the value of the
  last one in the destination. In general a call raises \<^verbatim>\<open>ArgumentError\<close> exactly
  when the action's default is \<^verbatim>\<open>None\<close> and the destination holds a value other than
  \<^verbatim>\<open>None\<close>.
\<close>

theorem OnceArgument_default_overwrites:
  assumes "default_value self \<noteq> PyNone" and "ns (dest self) \<noteq> None" and "vs \<noteq> []"
  shows "occurrences (OnceArgument_call opt) self p ns vs = Inr (self, p, ns(dest self \<mapsto> last vs))
         \<and> ((\<exists>msg. OnceArgument_call opt' a p' ns' v' = Inl (ArgumentError msg))
              = (default_value a = PyNone \<and> (\<exists>cur. ns' (dest a) = Some cur \<and> cur \<noteq> PyNone)))"
  using assms
  by (auto simp: occurrences_OnceArgument_default OnceArgument_call_def split: option.splits)

theorem OnceArgument_default_overwrites_witness:
  "occurrences (OnceArgument_call (Some ''-r''))
       \<lparr>dest = ''remote'', default_value = PyStr ''conancenter''\<rparr>
       \<lparr>actions = [\<lparr>dest = ''remote'', default_value = PyStr ''conancenter''\<rparr>],
        parser_defaults = Map.empty\<rparr>
       [''remote'' \<mapsto> PyStr ''conancenter''] [PyStr ''first'', PyStr ''second'']
   = Inr (\<lparr>dest = ''remote'', default_value = PyStr ''conancenter''\<rparr>,
          \<lparr>actions = [\<lparr>dest = ''remote'', default_value = PyStr ''conancenter''\<rparr>],
           parser_defaults = Map.empty\<rparr>,
          [''remote'' \<mapsto> PyStr ''second''])"
  (is "occurrences (OnceArgument_call ?o) ?a ?p ?ns ?vs = _")
proof -
  have h1: "default_value ?a \<noteq> PyNone" and h2: "?ns (dest ?a) \<noteq> None" and h3: "?vs \<noteq> []"
    by simp_all
  show ?thesis
    using OnceArgument_default_overwrites
      [where self = ?a and p = ?p and ns = ?ns and vs = ?vs and opt = ?o] h1 h2 h3
    by simp
qed

section \<open>Properties of the suggestion of similar commands\<close>

lemma sorted_map_fst:
  "sorted (ps :: ('a::linorder \<times> 'b::linorder) list) \<Longrightarrow> sorted (map fst ps)"
  by (induction ps) (auto simp: less_eq_prod_def)

lemma scores_of_pairs:
  assumes "\<forall>p \<in> set ps. fst p = f (snd p)"
  shows "map f (map snd ps) = map fst ps"
  using assms by (induction ps) auto

text \<open>
  Claim C7. For every scoring function, the names \<^verbatim>\<open>_print_similar\<close> selects for a
  token are at most 5, as many as 5 or as there are registered names scoring at least
  0.75, all of them registered names scoring at least 0.75 against the token, in
  descending order of their scores. When none is selected nothing is written; otherwise a
  header, the selected names in that order and an empty line are written as information.
  No exception is raised in either case.
\<close>

theorem print_similar_matches:
  "(let ms = similar_matches ratio self cmd in
      length ms \<le> 5
      \<and> length ms = min 5 (length (filter (\<lambda>x. 3 / 4 \<le> ratio x cmd) (map fst (commands self))))
      \<and> set ms \<subseteq> fst ` set (commands self)
      \<and> (\<forall>m \<in> set ms. 3 / 4 \<le> ratio m cmd)
      \<and> sorted_wrt (\<ge>) (map (\<lambda>m. ratio m cmd) ms)
      \<and> print_similar ratio self cmd =
          (if ms = [] then []
           else Out_info (if length ms > 1 then ''The most similar commands are''
                          else ''The most similar command is'')
                # map (\<lambda>m. Out_info (''    '' @ m)) ms @ [Out_info '''']))"
proof -
  define keys where "keys = map fst (commands self)"
  define ps where "ps = filter (\<lambda>p. 3 / 4 \<le> fst p) (map (\<lambda>x. (ratio x cmd, x)) keys)"
  define best where "best = take 5 (rev (sort ps))"
  have ms: "similar_matches ratio self cmd = map snd best"
    by (simp add: similar_matches_def get_close_matches_def best_def ps_def keys_def)
  have sub: "set best \<subseteq> set ps"
    unfolding best_def using set_take_subset [of 5 "rev (sort ps)"] by simp
  have ps_el: "\<forall>p \<in> set ps. fst p = ratio (snd p) cmd \<and> snd p \<in> set keys \<and> 3 / 4 \<le> fst p"
    by (auto simp: ps_def)
  have len: "length (map snd best) \<le> 5"
    by (simp add: best_def)
  have "length ps = length (filter (\<lambda>x. 3 / 4 \<le> ratio x cmd) keys)"
    by (simp add: ps_def filter_map comp_def)
  then have len2:
    "length (map snd best) = min 5 (length (filter (\<lambda>x. 3 / 4 \<le> ratio x cmd) keys))"
    by (simp add: best_def min.commute)
  have mem: "set (map snd best) \<subseteq> set keys"
    using sub ps_el by auto
  have thr: "\<forall>m \<in> set (map snd best). 3 / 4 \<le> ratio m cmd"
    using sub ps_el by fastforce
  have eq: "map (\<lambda>m. ratio m cmd) (map snd best) = map fst best"
    using sub ps_el by (intro scores_of_pairs) auto
  have "sorted_wrt (\<ge>) (map fst best)"
  proof -
    have "sorted (map fst (sort ps))"
      by (rule sorted_map_fst) simp
    then have "sorted_wrt (\<ge>) (map fst (rev (sort ps)))"
      by (simp add: rev_map [symmetric] sorted_wrt_rev)
    then have "sorted_wrt (\<ge>) (take 5 (map fst (rev (sort ps))))"
      by (rule sorted_wrt_take)
    then show ?thesis by (simp add: best_def take_map)
  qed
  then have desc: "sorted_wrt (\<ge>) (map (\<lambda>m. ratio m cmd) (map snd best))"
    by (simp only: eq)
  have out: "print_similar ratio self cmd =
          (if map snd best = [] then []
           else Out_info (if length (map snd best) > 1 then ''The most similar commands are''
                          else ''The most similar command is'')
                # map (\<lambda>m. Out_info (''    '' @ m)) (map snd best) @ [Out_info ''''])"
    by (simp add: print_similar_def ms Let_def)
  show ?thesis
    unfolding Let_def ms
    using len len2 mem thr desc out by (simp only: keys_def set_map)
qed

text \<open>
  With \<^verbatim>\<open>build\<close> scored 0.8 and \<^verbatim>\<open>create\<close> scored 0.2 against the token
  \<^verbatim>\<open>biuld\<close>, the one name selected is \<^verbatim>\<open>build\<close>.
\<close>

theorem print_similar_matches_witness:
  "similar_matches (\<lambda>x w. if x = ''build'' then 4 / 5 else 1 / 5)
       \<lparr>getmembers = [(''build'', \<lparr>doc = Some ''Builds'', call = (\<lambda>args. ([], None))\<rparr>),
                       (''create'', \<lparr>doc = Some ''Creates'', call = (\<lambda>args. ([], None))\<rparr>)]\<rparr>
       ''biuld''
     = [''build'']
   \<and> print_similar (\<lambda>x w. if x = ''build'' then 4 / 5 else 1 / 5)
       \<lparr>getmembers = [(''build'', \<lparr>doc = Some ''Builds'', call = (\<lambda>args. ([], None))\<rparr>),
                       (''create'', \<lparr>doc = Some ''Creates'', call = (\<lambda>args. ([], None))\<rparr>)]\<rparr>
       ''biuld''
     = [Out_info ''The most similar command is'', Out_info ''    build'', Out_info '''']"
  (is "similar_matches ?r ?S ?c = _ \<and> _")
proof -
  have m: "similar_matches ?r ?S ?c = [''build'']"
    by (simp add: similar_matches_def get_close_matches_def commands_def doc_shown_def
          startswith_def)
  show ?thesis
    using print_similar_matches [of ?r ?S ?c] unfolding Let_def m by simp
qed

section \<open>Properties of the JSON output\<close>

















end
